theory Spec2Isabelle
  imports Complex_Main
begin

section \<open>Flash Prompter: playback clock, mode machine and settings store\<close>

text \<open>
  A shallow embedding of \<^verbatim>\<open>src/App.tsx\<close>. The React component keeps its state in
  \<^verbatim>\<open>useState\<close> cells and \<^verbatim>\<open>useRef\<close> cells; here they are the fields of one record,
  every handler is a function from the record to the updated record, and the playback
  \<^verbatim>\<open>useEffect\<close> (dependencies \<^verbatim>\<open>[isPlaying, totalSeconds]\<close>) is run after each handler
  by \<open>step\<close>: the render and its effects are taken to follow the handler at once, with
  no other event in between.

  JavaScript numbers are IEEE-754 doubles. In the state of the component they are
  modelled as real numbers: the playback model has no NaN, no infinities and no rounding,
  and a statement about the playback arithmetic is a statement about the arithmetic the
  code writes down, evaluated exactly. Where a value comes in from outside, in \<^verbatim>\<open>load\<close>,
  the numbers are \<open>jsnum\<close>, with NaN and the two infinities. A string is the list of its
  UTF-16 code units.
\<close>

subsection \<open>Constants and types (lines 6--32)\<close>

type_synonym jsstring = "nat list"

definition DEFAULT_TEXT :: jsstring where
  "DEFAULT_TEXT =
    [27426, 36814, 20351, 29992, 32, 70, 108, 97, 115, 104, 32, 80, 114, 111, 109, 112,
     116, 101, 114, 10, 10, 36825, 26159, 19968, 27573, 40664, 35748, 25552, 35789, 20869,
     23481, 12290, 10, 30452, 25509, 24320, 22987, 24405, 21046, 65292, 25353, 31354,
     26684, 25773, 25918, 47, 26242, 20572, 12290, 10, 10, 31069, 20320, 24405, 21046,
     39034, 21033, 12290]"

definition WORDS_PER_MINUTE :: real where
  "WORDS_PER_MINUTE = 60"

definition LINE_HEIGHT :: real where
  "LINE_HEIGHT = 48"

definition FONT_SIZE :: real where
  "FONT_SIZE = 34"

datatype Mode = ModeInput | ModePrompter | ModeSettings

text \<open>
  A JavaScript number as \<^verbatim>\<open>load\<close> can meet it: a real number, an infinity or NaN.
\<close>

datatype jsnum = Num real | PosInfinity | NegInfinity | NaN

text \<open>
  \<^verbatim>\<open>Settings\<close>, with the type of its numbers as a parameter: \<open>real\<close> in the state of the
  component, \<open>jsnum\<close> in what \<^verbatim>\<open>load\<close> computes.
\<close>

record 'n Settings =
  wordsPerMinute :: 'n
  fontSize :: 'n
  lineHeight :: 'n
  autoStart :: bool

text \<open>\<^verbatim>\<open>Partial<Settings>\<close>: every field may be absent.\<close>

record 'n PartialSettings =
  p_wordsPerMinute :: "'n option"
  p_fontSize :: "'n option"
  p_lineHeight :: "'n option"
  p_autoStart :: "bool option"

definition DEFAULT_SETTINGS :: "real Settings" where
  "DEFAULT_SETTINGS =
    \<lparr>wordsPerMinute = WORDS_PER_MINUTE, fontSize = FONT_SIZE,
     lineHeight = LINE_HEIGHT, autoStart = False\<rparr>"

definition emptyPartial :: "'n PartialSettings" where
  "emptyPartial =
    \<lparr>p_wordsPerMinute = None, p_fontSize = None, p_lineHeight = None, p_autoStart = None\<rparr>"

text \<open>A rejected promise or a thrown exception of an external call.\<close>

datatype error = StorageError | BridgeError | TypeError

subsection \<open>The component's state (lines 35--44)\<close>

text \<open>
  \<open>raf\<close> is the effect's local \<^verbatim>\<open>raf\<close> read as a flag: a frame callback is pending.
\<close>

record App =
  mode :: Mode
  isPlaying :: bool
  progress :: real
  content :: jsstring
  settings :: "real Settings"
  startTimeRef :: "real option"
  startProgressRef :: real
  settingsReturnModeRef :: Mode
  raf :: bool

definition initApp :: App where
  "initApp =
    \<lparr>mode = ModeInput, isPlaying = False, progress = 0, content = DEFAULT_TEXT,
     settings = DEFAULT_SETTINGS, startTimeRef = None, startProgressRef = 0,
     settingsReturnModeRef = ModeInput, raf = False\<rparr>"

subsection \<open>Derived duration (lines 46--49)\<close>

text \<open>The code units matched by \<^verbatim>\<open>\s\<close>, which are also the ones \<^verbatim>\<open>trim\<close> removes.\<close>

definition isSpace :: "nat \<Rightarrow> bool" where
  "isSpace c =
    (c = 9 \<or> c = 10 \<or> c = 11 \<or> c = 12 \<or> c = 13 \<or> c = 32 \<or> c = 160 \<or> c = 5760
     \<or> (8192 \<le> c \<and> c \<le> 8202) \<or> c = 8232 \<or> c = 8233 \<or> c = 8239 \<or> c = 8287
     \<or> c = 12288 \<or> c = 65279)"

definition trim :: "jsstring \<Rightarrow> jsstring" where
  "trim s = rev (dropWhile isSpace (rev (dropWhile isSpace s)))"

text \<open>
  \<^verbatim>\<open>split(/\s+/)\<close>: \<open>splitWs inSep acc cs\<close> has read a separator last when \<open>inSep\<close>,
  and \<open>acc\<close> is the current piece, reversed.
\<close>

fun splitWs :: "bool \<Rightarrow> jsstring \<Rightarrow> jsstring \<Rightarrow> jsstring list" where
  "splitWs inSep acc [] = [rev acc]"
| "splitWs inSep acc (c # cs) =
    (if isSpace c
     then (if inSep then splitWs True acc cs else rev acc # splitWs True [] cs)
     else splitWs False (c # acc) cs)"

definition words :: "jsstring \<Rightarrow> jsstring list" where
  "words c = filter (\<lambda>w. w \<noteq> []) (splitWs False [] (trim c))"

definition totalWords :: "jsstring \<Rightarrow> nat" where
  "totalWords c = (if length (words c) = 0 then 1 else length (words c))"

definition wordsPerSecond :: "App \<Rightarrow> real" where
  "wordsPerSecond s = wordsPerMinute (settings s) / 60"

definition totalSeconds :: "App \<Rightarrow> real" where
  "totalSeconds s = real (totalWords (content s)) / wordsPerSecond s"

subsection \<open>Settings store (lines 55--86, 154--179)\<close>

text \<open>
  \<^verbatim>\<open>Math.max\<close> and \<^verbatim>\<open>Math.min\<close> of two numbers: NaN when either argument is NaN.
\<close>

fun mathMax :: "jsnum \<Rightarrow> jsnum \<Rightarrow> jsnum" where
  "mathMax NaN b = NaN"
| "mathMax a NaN = NaN"
| "mathMax PosInfinity b = PosInfinity"
| "mathMax a PosInfinity = PosInfinity"
| "mathMax NegInfinity b = b"
| "mathMax a NegInfinity = a"
| "mathMax (Num x) (Num y) = Num (max x y)"

fun mathMin :: "jsnum \<Rightarrow> jsnum \<Rightarrow> jsnum" where
  "mathMin NaN b = NaN"
| "mathMin a NaN = NaN"
| "mathMin NegInfinity b = NegInfinity"
| "mathMin a NegInfinity = NegInfinity"
| "mathMin PosInfinity b = b"
| "mathMin a PosInfinity = a"
| "mathMin (Num x) (Num y) = Num (min x y)"

definition clamp :: "jsnum \<Rightarrow> real \<Rightarrow> real \<Rightarrow> jsnum" where
  "clamp v lo hi = mathMin (Num hi) (mathMax (Num lo) v)"

text \<open>
  \<^verbatim>\<open>normalizeSettings\<close> reads each numeric field \<open>f\<close> of its argument as
  \<^verbatim>\<open>Number(value.f ?? DEFAULT)\<close>. In the model a field that is absent or null is \<open>None\<close>, and
  the default is taken. A field with any other value is \<open>Some\<close> of what \<^verbatim>\<open>Number\<close> does with
  that value. It returns a number, \<open>Inr n\<close>: the number itself for a number, 1 or 0 for a
  boolean, the value of a string that is a numeric literal, and NaN for every other
  string, such as \<^verbatim>\<open>"abc"\<close>. Or it throws, \<open>Inl TypeError\<close>, as it does for an object
  with a property \<^verbatim>\<open>toString\<close> of its own. \<open>numberOr d f\<close> is \<^verbatim>\<open>Number(value.f ?? d)\<close>.
\<close>

definition numberOr :: "real \<Rightarrow> (error + jsnum) option \<Rightarrow> error + jsnum" where
  "numberOr d f = (case f of None \<Rightarrow> Inr (Num d) | Some c \<Rightarrow> c)"

text \<open>
  The fields of the object literal are evaluated in their order; an exception of
  \<^verbatim>\<open>Number\<close> leaves \<^verbatim>\<open>normalizeSettings\<close> at once.
\<close>

definition normalizeSettings ::
  "(error + jsnum) PartialSettings \<Rightarrow> error + jsnum Settings" where
  "normalizeSettings v =
    (case numberOr WORDS_PER_MINUTE (p_wordsPerMinute v) of
       Inl e \<Rightarrow> Inl e
     | Inr w \<Rightarrow>
        (case numberOr FONT_SIZE (p_fontSize v) of
           Inl e \<Rightarrow> Inl e
         | Inr f \<Rightarrow>
            (case numberOr LINE_HEIGHT (p_lineHeight v) of
               Inl e \<Rightarrow> Inl e
             | Inr l \<Rightarrow>
                Inr \<lparr>wordsPerMinute = clamp w 20 240,
                     fontSize = clamp f 20 64,
                     lineHeight = clamp l 28 96,
                     autoStart = (case p_autoStart v of None \<Rightarrow> False | Some b \<Rightarrow> b)\<rparr>)))"

text \<open>
  \<open>load raw en\<close>: \<open>raw\<close> is what reading and parsing the stored item gave (\<open>Inl\<close> when
  \<^verbatim>\<open>getItem\<close> or \<^verbatim>\<open>JSON.parse\<close> threw, \<open>Inr None\<close> when there is no item, \<open>Inr (Some v)\<close>
  the fields of the parsed item, read as above); \<open>en\<close> is the outcome of \<^verbatim>\<open>isEnabled()\<close>.
  The stored \<^verbatim>\<open>autoStart\<close> is overwritten by the live flag. The result \<open>Inr v\<close> is the
  argument of \<^verbatim>\<open>setSettings\<close>; with \<open>Inl\<close> the exception of \<^verbatim>\<open>normalizeSettings\<close> rejects the
  promise of \<^verbatim>\<open>load\<close>, and \<^verbatim>\<open>setSettings\<close> is not called.
\<close>

definition load ::
  "error + (error + jsnum) PartialSettings option \<Rightarrow> error + bool
     \<Rightarrow> error + jsnum Settings" where
  "load raw en =
    (let stored = (case raw of Inl e \<Rightarrow> emptyPartial | Inr None \<Rightarrow> emptyPartial
                   | Inr (Some v) \<Rightarrow> v);
         a = (case en of Inl e \<Rightarrow> False | Inr b \<Rightarrow> b)
     in normalizeSettings (stored\<lparr>p_autoStart := Some a\<rparr>))"

text \<open>
  The state of the component keeps its settings as real numbers. \<open>loadNumbers\<close> is
  \<^verbatim>\<open>load\<close> for a stored item whose numeric fields are absent, null or numbers: no NaN, no
  infinity and no exception occurs then, \<^verbatim>\<open>Math.min\<close> and \<^verbatim>\<open>Math.max\<close> are \<open>min\<close> and
  \<open>max\<close>, and \<open>load\<close> passes just these settings to \<^verbatim>\<open>setSettings\<close> (\<open>load_numbers\<close> below).
  For any other stored item \<open>load\<close> itself says what is passed.
\<close>

definition clampNumber :: "real \<Rightarrow> real \<Rightarrow> real \<Rightarrow> real" where
  "clampNumber v lo hi = min hi (max lo v)"

definition normalizeNumbers :: "real PartialSettings \<Rightarrow> real Settings" where
  "normalizeNumbers v =
    \<lparr>wordsPerMinute =
       clampNumber (case p_wordsPerMinute v of None \<Rightarrow> WORDS_PER_MINUTE | Some x \<Rightarrow> x) 20 240,
     fontSize = clampNumber (case p_fontSize v of None \<Rightarrow> FONT_SIZE | Some x \<Rightarrow> x) 20 64,
     lineHeight = clampNumber (case p_lineHeight v of None \<Rightarrow> LINE_HEIGHT | Some x \<Rightarrow> x) 28 96,
     autoStart = (case p_autoStart v of None \<Rightarrow> False | Some b \<Rightarrow> b)\<rparr>"

definition loadNumbers ::
  "error + real PartialSettings option \<Rightarrow> error + bool \<Rightarrow> real Settings" where
  "loadNumbers raw en =
    (let stored = (case raw of Inl e \<Rightarrow> emptyPartial | Inr None \<Rightarrow> emptyPartial
                   | Inr (Some v) \<Rightarrow> v);
         a = (case en of Inl e \<Rightarrow> False | Inr b \<Rightarrow> b)
     in normalizeNumbers (stored\<lparr>p_autoStart := Some a\<rparr>))"

text \<open>Real settings and a stored item of numbers, as \<open>load\<close> sees them.\<close>

definition numbers :: "real Settings \<Rightarrow> jsnum Settings" where
  "numbers v =
    \<lparr>wordsPerMinute = Num (wordsPerMinute v), fontSize = Num (fontSize v),
     lineHeight = Num (lineHeight v), autoStart = autoStart v\<rparr>"

definition storedNumber :: "real option \<Rightarrow> (error + jsnum) option" where
  "storedNumber f = (case f of None \<Rightarrow> None | Some x \<Rightarrow> Some (Inr (Num x)))"

definition storedNumbers ::
  "error + real PartialSettings option
     \<Rightarrow> error + (error + jsnum) PartialSettings option" where
  "storedNumbers raw =
    (case raw of
       Inl e \<Rightarrow> Inl e
     | Inr None \<Rightarrow> Inr None
     | Inr (Some v) \<Rightarrow>
         Inr (Some \<lparr>p_wordsPerMinute = storedNumber (p_wordsPerMinute v),
                    p_fontSize = storedNumber (p_fontSize v),
                    p_lineHeight = storedNumber (p_lineHeight v),
                    p_autoStart = p_autoStart v\<rparr>))"

text \<open>The updater of \<^verbatim>\<open>updateSettings\<close>: \<^verbatim>\<open>{ ...prev, ...next }\<close>.\<close>

definition mergeSettings ::
  "real PartialSettings \<Rightarrow> real Settings \<Rightarrow> real Settings" where
  "mergeSettings next prev =
    \<lparr>wordsPerMinute = (case p_wordsPerMinute next of None \<Rightarrow> wordsPerMinute prev | Some x \<Rightarrow> x),
     fontSize = (case p_fontSize next of None \<Rightarrow> fontSize prev | Some x \<Rightarrow> x),
     lineHeight = (case p_lineHeight next of None \<Rightarrow> lineHeight prev | Some x \<Rightarrow> x),
     autoStart = (case p_autoStart next of None \<Rightarrow> autoStart prev | Some b \<Rightarrow> b)\<rparr>"

definition updateSettings :: "real PartialSettings \<Rightarrow> App \<Rightarrow> App" where
  "updateSettings next s = s\<lparr>settings := mergeSettings next (settings s)\<rparr>"

text \<open>
  \<^verbatim>\<open>toggleAutoStart\<close> in its two halves. \<open>toggleFlip\<close> is the part before the
  \<^verbatim>\<open>await\<close>: it returns \<^verbatim>\<open>next\<close> and the state after the first \<^verbatim>\<open>setSettings\<close>.
  \<open>toggleSettle next r\<close> is the part after it, \<open>r\<close> the outcome of \<^verbatim>\<open>enable()\<close> when
  \<open>next\<close> and of \<^verbatim>\<open>disable()\<close> otherwise; the \<^verbatim>\<open>catch\<close> handles every rejection, so the
  function's own promise is never rejected: the result is always \<open>Inr\<close>.
\<close>

definition toggleFlip :: "App \<Rightarrow> bool \<times> App" where
  "toggleFlip s =
    (let next = \<not> autoStart (settings s)
     in (next, s\<lparr>settings := (settings s)\<lparr>autoStart := next\<rparr>\<rparr>))"

definition toggleSettle :: "bool \<Rightarrow> error + unit \<Rightarrow> App \<Rightarrow> error + App" where
  "toggleSettle next r s =
    (case r of
       Inr u \<Rightarrow> Inr s
     | Inl e \<Rightarrow> Inr (s\<lparr>settings := (settings s)\<lparr>autoStart := \<not> next\<rparr>\<rparr>))"

definition toggleAutoStart :: "error + unit \<Rightarrow> App \<Rightarrow> error + App" where
  "toggleAutoStart r s = (case toggleFlip s of (next, s1) \<Rightarrow> toggleSettle next r s1)"

definition restoreDefaults :: "App \<Rightarrow> App" where
  "restoreDefaults s = s\<lparr>settings := DEFAULT_SETTINGS\<rparr>"

subsection \<open>Mode machine (lines 131--152)\<close>

text \<open>The call to the host window (\<^verbatim>\<open>setAlwaysOnTop\<close>) is outside the model.\<close>

definition enterPrompter :: "App \<Rightarrow> App" where
  "enterPrompter s = s\<lparr>mode := ModePrompter\<rparr>"

definition exitPrompter :: "App \<Rightarrow> App" where
  "exitPrompter s = s\<lparr>mode := ModeInput\<rparr>"

definition openSettings :: "App \<Rightarrow> App" where
  "openSettings s =
    (if mode s = ModeSettings then s
     else s\<lparr>settingsReturnModeRef := mode s, isPlaying := False, mode := ModeSettings\<rparr>)"

definition closeSettings :: "App \<Rightarrow> App" where
  "closeSettings s = s\<lparr>mode := settingsReturnModeRef s\<rparr>"

subsection \<open>Playback clock (lines 96--123, 181--223, 515--520)\<close>

text \<open>The anchor \<^verbatim>\<open>startTimeRef.current\<close> after line 102, and the local \<^verbatim>\<open>nextProgress\<close>.\<close>

definition anchor :: "real \<Rightarrow> App \<Rightarrow> real" where
  "anchor time s = (case startTimeRef s of None \<Rightarrow> time | Some t0 \<Rightarrow> t0)"

definition nextProgress :: "real \<Rightarrow> App \<Rightarrow> real" where
  "nextProgress time s =
    startProgressRef s + ((time - anchor time s) / 1000) / totalSeconds s"

definition tick :: "real \<Rightarrow> App \<Rightarrow> App" where
  "tick time s =
    (let s1 = s\<lparr>startTimeRef := Some (anchor time s)\<rparr>
     in if nextProgress time s \<ge> 1
        then s1\<lparr>progress := 1, startProgressRef := 1, isPlaying := False, raf := False\<rparr>
        else s1\<lparr>progress := nextProgress time s, raf := True\<rparr>)"

text \<open>
  The playback effect between two renders: when \<^verbatim>\<open>isPlaying\<close> or \<^verbatim>\<open>totalSeconds\<close> has
  changed, the cleanup cancels the pending frame and the effect body runs again.
\<close>

definition playbackEffect :: "App \<Rightarrow> App \<Rightarrow> App" where
  "playbackEffect old new =
    (if isPlaying new = isPlaying old \<and> totalSeconds new = totalSeconds old then new
     else if isPlaying new then new\<lparr>startTimeRef := None, raf := True\<rparr>
     else new\<lparr>raf := False\<rparr>)"

definition handleStart :: "App \<Rightarrow> App" where
  "handleStart s =
    (let s1 = (if mode s = ModeInput
               then enterPrompter (s\<lparr>progress := 0, startProgressRef := 0\<rparr>)
               else s\<lparr>startProgressRef := progress s\<rparr>)
     in s1\<lparr>startTimeRef := None, isPlaying := True\<rparr>)"

definition handlePause :: "App \<Rightarrow> App" where
  "handlePause s =
    (if \<not> isPlaying s then s
     else s\<lparr>isPlaying := False, startProgressRef := progress s\<rparr>)"

definition handleStop :: "App \<Rightarrow> App" where
  "handleStop s =
    exitPrompter (s\<lparr>isPlaying := False, progress := 0, startProgressRef := 0,
                    startTimeRef := None\<rparr>)"

definition onKey :: "string \<Rightarrow> App \<Rightarrow> App" where
  "onKey code s =
    (if mode s = ModeSettings then s
     else if code = ''Space''
     then (if mode s = ModeInput then handleStart s
           else if isPlaying s then handlePause s
           else handleStart s)
     else s)"

text \<open>The \<^verbatim>\<open>onChange\<close> of the text area.\<close>

definition editContent :: "jsstring \<Rightarrow> App \<Rightarrow> App" where
  "editContent v s =
    s\<lparr>content := v, progress := 0, startProgressRef := 0, isPlaying := False\<rparr>"

subsection \<open>Events and renders\<close>

text \<open>
  Everything that can happen to the component: a button, the key handler, an edit, a
  slider, a frame callback with its timestamp, and the two asynchronous continuations
  (the end of \<^verbatim>\<open>load\<close>, and the end of the bridge call of \<^verbatim>\<open>toggleAutoStart\<close>).
\<close>

datatype Event =
    Start
  | Pause
  | Stop
  | OpenSettings
  | CloseSettings
  | Key string
  | Edit jsstring
  | Update "real PartialSettings"
  | ToggleAutoStart
  | AutoStartSettled bool "error + unit"
  | RestoreDefaults
  | LoadDone "error + real PartialSettings option" "error + bool"
  | Frame real

fun handler :: "Event \<Rightarrow> App \<Rightarrow> App" where
  "handler Start s = handleStart s"
| "handler Pause s = handlePause s"
| "handler Stop s = handleStop s"
| "handler OpenSettings s = openSettings s"
| "handler CloseSettings s = closeSettings s"
| "handler (Key code) s = onKey code s"
| "handler (Edit v) s = editContent v s"
| "handler (Update next) s = updateSettings next s"
| "handler ToggleAutoStart s = snd (toggleFlip s)"
| "handler (AutoStartSettled next r) s = (case toggleSettle next r s of Inl e \<Rightarrow> s | Inr s' \<Rightarrow> s')"
| "handler RestoreDefaults s = restoreDefaults s"
| "handler (LoadDone raw en) s = s\<lparr>settings := loadNumbers raw en\<rparr>"
| "handler (Frame time) s = (if raf s then tick time s else s)"

text \<open>One event: the handler, then the render with its playback effect.\<close>

definition step :: "Event \<Rightarrow> App \<Rightarrow> App" where
  "step e s = playbackEffect s (handler e s)"

text \<open>
  What the rendered screen offers in a state (lines 244--535): the controls of the
  current mode, the sliders with their ranges, the text area in the input screen. The
  key handler and the asynchronous continuations are not tied to a screen.
\<close>

definition inRange :: "real \<Rightarrow> real \<Rightarrow> real option \<Rightarrow> bool" where
  "inRange lo hi v = (case v of None \<Rightarrow> False | Some x \<Rightarrow> lo \<le> x \<and> x \<le> hi)"

text \<open>
  A slider's \<^verbatim>\<open>onChange\<close> passes one field, between the slider's \<^verbatim>\<open>min\<close> and \<^verbatim>\<open>max\<close>
  (the slider's step is left out: more values than a slider can give are admitted).
\<close>

definition sliderValue :: "real PartialSettings \<Rightarrow> bool" where
  "sliderValue p =
    (p_autoStart p = None \<and>
     ((inRange 20 240 (p_wordsPerMinute p) \<and> p_fontSize p = None \<and> p_lineHeight p = None)
      \<or> (p_wordsPerMinute p = None \<and> inRange 20 64 (p_fontSize p) \<and> p_lineHeight p = None)
      \<or> (p_wordsPerMinute p = None \<and> p_fontSize p = None \<and> inRange 28 96 (p_lineHeight p))))"

fun offered :: "Event \<Rightarrow> App \<Rightarrow> bool" where
  "offered Start s = (mode s = ModeInput \<or> (mode s = ModePrompter \<and> \<not> isPlaying s))"
| "offered Pause s = (mode s = ModePrompter \<and> isPlaying s)"
| "offered Stop s = (mode s = ModePrompter)"
| "offered OpenSettings s = (mode s = ModeInput \<or> mode s = ModePrompter)"
| "offered CloseSettings s = (mode s = ModeSettings)"
| "offered (Key code) s = True"
| "offered (Edit v) s = (mode s = ModeInput)"
| "offered (Update next) s = (mode s = ModeSettings \<and> sliderValue next)"
| "offered ToggleAutoStart s = (mode s = ModeSettings)"
| "offered (AutoStartSettled next r) s = True"
| "offered RestoreDefaults s = (mode s = ModeSettings)"
| "offered (LoadDone raw en) s = True"
| "offered (Frame time) s = raf s"

text \<open>A run of events from a state; \<open>None\<close> when an event is not offered where it occurs.\<close>

fun run :: "Event list \<Rightarrow> App \<Rightarrow> App option" where
  "run [] s = Some s"
| "run (e # es) s = (if offered e s then run es (step e s) else None)"

text \<open>The handlers called in any order, whatever the screen offers.\<close>

fun steps :: "Event list \<Rightarrow> App \<Rightarrow> App" where
  "steps [] s = s"
| "steps (e # es) s = steps es (step e s)"

subsection \<open>Predicates used in the statements\<close>

text \<open>
  What holds in every state the screens can reach: a frame callback is pending exactly
  while playing, and playing happens in the prompter screen only.
\<close>

definition uiInvariant :: "App \<Rightarrow> bool" where
  "uiInvariant s = (raf s = isPlaying s \<and> (\<not> isPlaying s \<or> mode s = ModePrompter))"

text \<open>The three numeric fields inside their bounds.\<close>

definition clampedSettings :: "real Settings \<Rightarrow> bool" where
  "clampedSettings v =
    (20 \<le> wordsPerMinute v \<and> wordsPerMinute v \<le> 240
     \<and> 20 \<le> fontSize v \<and> fontSize v \<le> 64
     \<and> 28 \<le> lineHeight v \<and> lineHeight v \<le> 96)"

text \<open>The same for settings as \<^verbatim>\<open>load\<close> computes them: a number, and inside the bounds.\<close>

definition numberWithin :: "real \<Rightarrow> real \<Rightarrow> jsnum \<Rightarrow> bool" where
  "numberWithin lo hi n =
    (case n of Num x \<Rightarrow> lo \<le> x \<and> x \<le> hi | PosInfinity \<Rightarrow> False
     | NegInfinity \<Rightarrow> False | NaN \<Rightarrow> False)"

definition clampedNumbers :: "jsnum Settings \<Rightarrow> bool" where
  "clampedNumbers v =
    (numberWithin 20 240 (wordsPerMinute v) \<and> numberWithin 20 64 (fontSize v)
     \<and> numberWithin 28 96 (lineHeight v))"

definition withinBounds :: "real \<Rightarrow> real \<Rightarrow> real option \<Rightarrow> bool" where
  "withinBounds lo hi v = (case v of None \<Rightarrow> True | Some x \<Rightarrow> lo \<le> x \<and> x \<le> hi)"

text \<open>A partial settings object whose numeric fields, where present, are inside their bounds.\<close>

definition clampedPartial :: "real PartialSettings \<Rightarrow> bool" where
  "clampedPartial p =
    (withinBounds 20 240 (p_wordsPerMinute p) \<and> withinBounds 20 64 (p_fontSize p)
     \<and> withinBounds 28 96 (p_lineHeight p))"

fun clampedUpdate :: "Event \<Rightarrow> bool" where
  "clampedUpdate (Update next) = clampedPartial next"
| "clampedUpdate e = True"

text \<open>The explicit resets: stop, and an edit of the script.\<close>

fun isReset :: "Event \<Rightarrow> bool" where
  "isReset Stop = True"
| "isReset (Edit v) = True"
| "isReset e = False"


subsection \<open>Runs on a clock\<close>

text \<open>
  Frame timestamps do not decrease: \<open>inTime now e\<close> lets a frame be delivered when its
  timestamp is not before that of the last frame, \<open>now\<close>, and \<open>clock\<close> moves \<open>now\<close> on.
\<close>

fun isLoad :: "Event \<Rightarrow> bool" where
  "isLoad (LoadDone raw en) = True"
| "isLoad e = False"

fun clock :: "real \<Rightarrow> Event \<Rightarrow> real" where
  "clock now (Frame t) = t"
| "clock now e = now"

fun inTime :: "real \<Rightarrow> Event \<Rightarrow> bool" where
  "inTime now (Frame t) = (now \<le> t)"
| "inTime now e = True"

text \<open>
  A run of offered events, in time, in which the end of \<^verbatim>\<open>load\<close> does not arrive while
  playing.
\<close>

fun admissible :: "real \<Rightarrow> Event list \<Rightarrow> App \<Rightarrow> bool" where
  "admissible now [] s = True"
| "admissible now (e # es) s =
    (offered e s \<and> inTime now e \<and> \<not> (isLoad e \<and> isPlaying s)
     \<and> admissible (clock now e) es (step e s))"

text \<open>
  Where the progress stands in such a run: at 0 outside the prompter, and while playing
  on the line through the anchor, at the time of the last frame.
\<close>

definition positioned :: "real \<Rightarrow> App \<Rightarrow> bool" where
  "positioned now s =
    (progress s \<le> 1
     \<and> (mode s = ModeInput \<longrightarrow> progress s = 0)
     \<and> (mode s = ModeSettings \<and> settingsReturnModeRef s = ModeInput \<longrightarrow> progress s = 0)
     \<and> (isPlaying s \<longrightarrow>
          (case startTimeRef s of
             None \<Rightarrow> startProgressRef s = progress s
           | Some t0 \<Rightarrow> t0 \<le> now \<and> nextProgress now s = progress s)))"

definition anchored :: "real \<Rightarrow> App \<Rightarrow> bool" where
  "anchored now s = (uiInvariant s \<and> clampedSettings (settings s) \<and> positioned now s)"

subsection \<open>Two states of a run, used as examples\<close>

text \<open>
  The default script has six words, so at 60 words per minute it lasts six seconds:
  three seconds after the first frame playback is half way, seven seconds after it
  playback has completed.
\<close>

definition playingHalfway :: App where
  "playingHalfway = step (Frame 3000) (step (Frame 0) (step Start initApp))"


section \<open>Auxiliary facts\<close>

lemmas handler_defs =
  handleStart_def handlePause_def handleStop_def onKey_def editContent_def
  openSettings_def closeSettings_def enterPrompter_def exitPrompter_def
  updateSettings_def restoreDefaults_def toggleFlip_def toggleSettle_def

lemma totalWords_pos: "1 \<le> totalWords c"
  by (cases "words c") (simp_all add: totalWords_def)

lemma totalWords_default: "totalWords DEFAULT_TEXT = 6"
  by (simp add: totalWords_def words_def trim_def DEFAULT_TEXT_def isSpace_def)

lemmas eval_defs =
  step_def playbackEffect_def handler_defs tick_def nextProgress_def anchor_def
  totalSeconds_def wordsPerSecond_def initApp_def DEFAULT_SETTINGS_def
  WORDS_PER_MINUTE_def FONT_SIZE_def LINE_HEIGHT_def totalWords_default Let_def

lemma uiInvariant_step: "uiInvariant s \<Longrightarrow> offered e s \<Longrightarrow> uiInvariant (step e s)"
  by (cases e; cases "mode s")
    (auto simp: uiInvariant_def step_def playbackEffect_def handler_defs tick_def Let_def
      split: if_splits sum.splits)

lemma uiInvariant_run: "uiInvariant s \<Longrightarrow> run es s = Some s' \<Longrightarrow> uiInvariant s'"
proof (induction es arbitrary: s)
  case Nil
  then show ?case by simp
next
  case (Cons e es)
  from Cons.prems(2) have o: "offered e s" and r: "run es (step e s) = Some s'"
    by (simp_all split: if_splits)
  from Cons.IH [OF uiInvariant_step [OF Cons.prems(1) o] r] show ?case .
qed

lemma uiInvariant_init: "uiInvariant initApp"
  by (simp add: uiInvariant_def initApp_def)

lemma returnMode_step:
  "settingsReturnModeRef s \<noteq> ModeSettings \<Longrightarrow> settingsReturnModeRef (step e s) \<noteq> ModeSettings"
  by (cases e)
    (auto simp: step_def playbackEffect_def handler_defs tick_def Let_def
      split: if_splits sum.splits)

lemma returnMode_steps:
  "settingsReturnModeRef s \<noteq> ModeSettings \<Longrightarrow> settingsReturnModeRef (steps es s) \<noteq> ModeSettings"
  by (induction es arbitrary: s) (auto simp: returnMode_step)

lemma playingHalfway_eq:
  "playingHalfway = initApp\<lparr>mode := ModePrompter, isPlaying := True, progress := 1 / 2,
     startTimeRef := Some 0, raf := True\<rparr>"
  by (simp add: playingHalfway_def eval_defs)

lemma totalSeconds_playingHalfway: "totalSeconds playingHalfway = 6"
  by (simp add: playingHalfway_eq totalSeconds_def wordsPerSecond_def initApp_def
      DEFAULT_SETTINGS_def WORDS_PER_MINUTE_def totalWords_default)


subsection \<open>Frames of one playing interval\<close>

lemma step_Frame_idle: "\<not> raf s \<Longrightarrow> step (Frame t) s = s"
  by (simp add: step_def playbackEffect_def)

lemma frames_idle: "\<not> raf s \<Longrightarrow> steps (map Frame ts) s = s"
  by (induction ts) (simp_all add: step_Frame_idle)

lemma step_Frame_done:
  "raf s \<Longrightarrow> isPlaying s \<Longrightarrow> 1 \<le> nextProgress t s \<Longrightarrow>
     progress (step (Frame t) s) = 1 \<and> \<not> raf (step (Frame t) s)"
  by (simp add: step_def playbackEffect_def tick_def Let_def)

lemma step_Frame_go:
  "raf s \<Longrightarrow> \<not> 1 \<le> nextProgress t s \<Longrightarrow>
     step (Frame t) s = s\<lparr>startTimeRef := Some (anchor t s), progress := nextProgress t s\<rparr>"
  by (simp add: step_def playbackEffect_def tick_def Let_def totalSeconds_def wordsPerSecond_def)

lemma nextProgress_anchored:
  "startTimeRef s = Some t0 \<Longrightarrow>
     nextProgress t s = startProgressRef s + ((t - t0) / 1000) / totalSeconds s"
  by (simp add: nextProgress_def anchor_def)

lemma nextProgress_mono:
  "startTimeRef s = Some t0 \<Longrightarrow> 0 < totalSeconds s \<Longrightarrow> t \<le> t' \<Longrightarrow>
     nextProgress t s \<le> nextProgress t' s"
  by (simp add: nextProgress_anchored divide_right_mono)

lemma totalSeconds_frame [simp]:
  "totalSeconds (s\<lparr>startTimeRef := a, progress := b\<rparr>) = totalSeconds s"
  by (simp add: totalSeconds_def wordsPerSecond_def)

text \<open>
  While the duration is fixed, the progress after a run of frames with non-decreasing
  timestamps is the candidate of the last frame, capped at 1.
\<close>

lemma frames_closed_form:
  "raf s \<Longrightarrow> isPlaying s \<Longrightarrow> startTimeRef s = Some t0 \<Longrightarrow> 0 < totalSeconds s \<Longrightarrow>
   sorted ts \<Longrightarrow> ts \<noteq> [] \<Longrightarrow>
     progress (steps (map Frame ts) s) = min 1 (nextProgress (last ts) s)"
proof (induction ts arbitrary: s)
  case Nil
  then show ?case by simp
next
  case (Cons t ts)
  show ?case
  proof (cases "1 \<le> nextProgress t s")
    case True
    from step_Frame_done [OF Cons.prems(1,2) True]
    have d: "progress (step (Frame t) s) = 1" "\<not> raf (step (Frame t) s)" by simp_all
    have "t \<le> last (t # ts)" using Cons.prems(5) by (cases ts) auto
    from nextProgress_mono [OF Cons.prems(3,4) this] True
    have "1 \<le> nextProgress (last (t # ts)) s" by simp
    with d show ?thesis by (simp add: frames_idle)
  next
    case False
    note go = step_Frame_go [OF Cons.prems(1) False]
    have a: "anchor t s = t0" using Cons.prems(3) by (simp add: anchor_def)
    show ?thesis
    proof (cases "ts = []")
      case True
      with False go show ?thesis by simp
    next
      case nonempty: False
      let ?s' = "s\<lparr>startTimeRef := Some (anchor t s), progress := nextProgress t s\<rparr>"
      have "nextProgress (last ts) ?s'
          = startProgressRef s + ((last ts - t0) / 1000) / totalSeconds ?s'"
        using a by (simp add: nextProgress_def anchor_def)
      also have "\<dots> = nextProgress (last ts) s"
        using Cons.prems(3) by (simp add: nextProgress_anchored)
      finally have np: "nextProgress (last ts) ?s' = nextProgress (last ts) s" .
      have "progress (steps (map Frame ts) ?s') = min 1 (nextProgress (last ts) ?s')"
        using Cons.prems nonempty a by (intro Cons.IH) simp_all
      with go nonempty np show ?thesis by simp
    qed
  qed
qed

text \<open>Hence, while the duration is fixed, one more frame never lowers the progress.\<close>

lemma frames_monotone:
  assumes "raf s" and "isPlaying s" and "startTimeRef s = Some t0" and "0 < totalSeconds s"
    and "sorted (ts @ [t, t'])"
  shows "progress (steps (map Frame (ts @ [t])) s)
         \<le> progress (steps (map Frame (ts @ [t, t'])) s)"
proof -
  from assms(5) have s1: "sorted (ts @ [t])" and le: "t \<le> t'"
    by (simp_all add: sorted_append)
  have a: "progress (steps (map Frame (ts @ [t])) s) = min 1 (nextProgress t s)"
    using frames_closed_form [OF assms(1-4) s1] by simp
  have b: "progress (steps (map Frame (ts @ [t, t'])) s) = min 1 (nextProgress t' s)"
    using frames_closed_form [OF assms(1-4) assms(5)] by simp
  from nextProgress_mono [OF assms(3,4) le] show ?thesis
    unfolding a b by simp
qed

subsection \<open>Pausing and resuming\<close>

lemma pause_facts:
  assumes "isPlaying s"
  shows "startProgressRef (step Pause s) = progress s"
    and "\<not> isPlaying (step Pause s)"
    and "progress (step Pause s) = progress s"
    and "mode (step Pause s) = mode s"
    and "totalSeconds (step Pause s) = totalSeconds s"
  using assms
  by (simp_all add: step_def playbackEffect_def handlePause_def totalSeconds_def
      wordsPerSecond_def)

lemma resume_start:
  assumes m: "mode s \<noteq> ModeInput" and np: "\<not> isPlaying s"
  shows "isPlaying (step Start s)"
    and "startProgressRef (step Start s) = progress s"
    and "startTimeRef (step Start s) = None"
    and "progress (step Start s) = progress s"
    and "raf (step Start s)"
    and "mode (step Start s) = mode s"
    and "totalSeconds (step Start s) = totalSeconds s"
  using assms
  by (simp_all add: step_def playbackEffect_def handleStart_def totalSeconds_def
      wordsPerSecond_def)

lemma resume_first_frame:
  assumes m: "mode s \<noteq> ModeInput" and np: "\<not> isPlaying s" and le: "progress s \<le> 1"
  shows "startTimeRef (step (Frame t) (step Start s)) = Some t"
    and "progress (step (Frame t) (step Start s)) = progress s"
    and "startProgressRef (step (Frame t) (step Start s)) = progress s"
    and "totalSeconds (step (Frame t) (step Start s)) = totalSeconds s"
    and "progress s < 1 \<Longrightarrow>
          raf (step (Frame t) (step Start s)) \<and> isPlaying (step (Frame t) (step Start s))"
    and "\<not> progress s < 1 \<Longrightarrow> \<not> raf (step (Frame t) (step Start s))"
  using assms
  by (simp_all add: step_def playbackEffect_def handleStart_def tick_def nextProgress_def
      anchor_def Let_def totalSeconds_def wordsPerSecond_def)

lemma resume_later_frames:
  assumes m: "mode s \<noteq> ModeInput" and np: "\<not> isPlaying s" and le: "progress s \<le> 1"
    and T: "0 < totalSeconds s" and so: "sorted (t # ts)" and ne: "ts \<noteq> []"
  shows "progress (steps (map Frame ts) (step (Frame t) (step Start s)))
         = min 1 (progress s + ((last ts - t) / 1000) / totalSeconds s)"
proof -
  let ?s3 = "step (Frame t) (step Start s)"
  note f = resume_first_frame [OF m np le, of t]
  have tl: "t \<le> last ts" using so ne by (cases ts rule: rev_cases) auto
  show ?thesis
  proof (cases "progress s < 1")
    case True
    from f(5) [OF True] have r: "raf ?s3" and p: "isPlaying ?s3" by simp_all
    have "progress (steps (map Frame ts) ?s3) = min 1 (nextProgress (last ts) ?s3)"
      using so ne T by (intro frames_closed_form [OF r p f(1)]) (simp_all add: f(4))
    then show ?thesis
      by (simp add: nextProgress_anchored [OF f(1)] f(3) f(4))
  next
    case False
    with le have one: "progress s = 1" by simp
    have "0 \<le> ((last ts - t) / 1000) / totalSeconds s"
      using tl T by simp
    with one f(2) show ?thesis
      by (simp add: frames_idle [OF f(6) [OF False]])
  qed
qed

subsection \<open>After completion\<close>



subsection \<open>Settings inside their bounds\<close>

lemma clampNumber_bounds:
  "lo \<le> hi \<Longrightarrow> lo \<le> clampNumber v lo hi \<and> clampNumber v lo hi \<le> hi"
  by (simp add: clampNumber_def)

lemma clamped_normalize: "clampedSettings (normalizeNumbers v)"
  by (simp add: clampedSettings_def normalizeNumbers_def clampNumber_bounds)

lemma clamped_load: "clampedSettings (loadNumbers raw en)"
  by (simp add: loadNumbers_def Let_def clamped_normalize)

lemma clamped_default: "clampedSettings DEFAULT_SETTINGS"
  by (simp add: clampedSettings_def DEFAULT_SETTINGS_def WORDS_PER_MINUTE_def FONT_SIZE_def
      LINE_HEIGHT_def)

lemma clamped_merge:
  "clampedSettings prev \<Longrightarrow> clampedPartial next \<Longrightarrow> clampedSettings (mergeSettings next prev)"
  by (simp add: clampedSettings_def clampedPartial_def withinBounds_def mergeSettings_def
      split: option.splits)

lemma clamped_autoStart: "clampedSettings (v\<lparr>autoStart := b\<rparr>) = clampedSettings v"
  by (simp add: clampedSettings_def)

lemma settings_playbackEffect: "settings (playbackEffect old new) = settings new"
  by (simp add: playbackEffect_def)

lemma settings_tick: "settings (tick t s) = settings s"
  by (simp add: tick_def Let_def)

lemma settings_onKey: "settings (onKey code s) = settings s"
  by (simp add: onKey_def handleStart_def handlePause_def enterPrompter_def)

lemma clamped_step:
  "clampedSettings (settings s) \<Longrightarrow> clampedUpdate e \<Longrightarrow> clampedSettings (settings (step e s))"
proof (cases e)
  case (Update p)
  assume "clampedSettings (settings s)" "clampedUpdate e"
  with Update show ?thesis
    by (simp add: step_def settings_playbackEffect updateSettings_def clamped_merge)
next
  case (AutoStartSettled b r)
  assume "clampedSettings (settings s)" "clampedUpdate e"
  with AutoStartSettled show ?thesis
    by (cases r) (simp_all add: step_def settings_playbackEffect toggleSettle_def clamped_autoStart)
qed (simp_all add: step_def settings_playbackEffect settings_tick settings_onKey
    handleStart_def handlePause_def handleStop_def editContent_def openSettings_def
    closeSettings_def enterPrompter_def exitPrompter_def restoreDefaults_def toggleFlip_def
    Let_def clamped_default clamped_load clamped_autoStart)

lemma clamped_steps:
  "clampedSettings (settings s) \<Longrightarrow> list_all clampedUpdate es \<Longrightarrow>
     clampedSettings (settings (steps es s))"
  by (induction es arbitrary: s) (simp_all add: clamped_step)

lemma sliderValue_clamped: "sliderValue p \<Longrightarrow> clampedPartial p"
  by (auto simp: sliderValue_def clampedPartial_def withinBounds_def inRange_def split: option.splits)

lemma offered_clamped: "offered e s \<Longrightarrow> clampedUpdate e"
  by (cases e) (simp_all add: sliderValue_clamped)

lemma clamped_run: "run es initApp = Some s \<Longrightarrow> clampedSettings (settings s)"
proof -
  have "clampedSettings (settings s') \<Longrightarrow> run es s' = Some s \<Longrightarrow> clampedSettings (settings s)"
    for s'
  proof (induction es arbitrary: s')
    case Nil
    then show ?case by simp
  next
    case (Cons e es)
    from Cons.prems(2) have o: "offered e s'" and r: "run es (step e s') = Some s"
      by (simp_all split: if_splits)
    from Cons.IH [OF clamped_step [OF Cons.prems(1) offered_clamped [OF o]] r] show ?case .
  qed
  moreover have "clampedSettings (settings initApp)"
    by (simp add: initApp_def clamped_default)
  moreover assume "run es initApp = Some s"
  ultimately show ?thesis by simp
qed

subsection \<open>What load stores\<close>

lemma clamp_NaN: "clamp NaN lo hi = NaN"
  by (simp add: clamp_def)

lemma clamp_Num: "clamp (Num x) lo hi = Num (clampNumber x lo hi)"
  by (simp add: clamp_def clampNumber_def)

lemma clamp_within: "lo \<le> hi \<Longrightarrow> n \<noteq> NaN \<Longrightarrow> numberWithin lo hi (clamp n lo hi)"
  by (cases n) (simp_all add: clamp_def numberWithin_def)

lemma clamp_not_within: "\<not> numberWithin lo hi (clamp NaN lo hi)"
  by (simp add: clamp_def numberWithin_def)

text \<open>On a stored item of numbers \<open>load\<close> passes the settings of \<open>loadNumbers\<close>.\<close>

lemma numberOr_storedNumber:
  "numberOr d (storedNumber f) = Inr (Num (case f of None \<Rightarrow> d | Some x \<Rightarrow> x))"
  by (simp add: numberOr_def storedNumber_def split: option.splits)

lemma normalize_numbers:
  "normalizeSettings
     \<lparr>p_wordsPerMinute = storedNumber (p_wordsPerMinute v),
      p_fontSize = storedNumber (p_fontSize v),
      p_lineHeight = storedNumber (p_lineHeight v),
      p_autoStart = a\<rparr>
   = Inr (numbers (normalizeNumbers (v\<lparr>p_autoStart := a\<rparr>)))"
  by (simp add: normalizeSettings_def normalizeNumbers_def numbers_def clamp_Num
      numberOr_storedNumber)

lemma normalize_empty:
  "normalizeSettings (emptyPartial\<lparr>p_autoStart := a\<rparr>)
     = Inr (numbers (normalizeNumbers (emptyPartial\<lparr>p_autoStart := a\<rparr>)))"
  using normalize_numbers [of emptyPartial a]
  by (simp add: emptyPartial_def storedNumber_def)

lemma load_numbers: "load (storedNumbers raw) en = Inr (numbers (loadNumbers raw en))"
proof (cases raw)
  case (Inl e)
  then show ?thesis
    by (simp add: load_def loadNumbers_def storedNumbers_def Let_def normalize_empty)
next
  case (Inr item)
  then show ?thesis
    by (cases item)
      (simp_all add: load_def loadNumbers_def storedNumbers_def Let_def normalize_empty
        normalize_numbers)
qed

lemma clampedNumbers_numbers: "clampedNumbers (numbers v) = clampedSettings v"
  by (simp add: clampedNumbers_def numbers_def numberWithin_def clampedSettings_def)

text \<open>
  What \<open>normalizeSettings\<close> returns is inside the bounds exactly when \<^verbatim>\<open>Number\<close> makes NaN of
  none of the three numeric fields.
\<close>

lemma field_within:
  "lo \<le> d \<Longrightarrow> d \<le> hi \<Longrightarrow> numberOr d f = Inr n \<Longrightarrow>
     numberWithin lo hi (clamp n lo hi) = (f \<noteq> Some (Inr NaN))"
proof (cases f)
  case None
  assume "lo \<le> d" "d \<le> hi" "numberOr d f = Inr n"
  with None show ?thesis by (auto simp: numberOr_def clamp_def numberWithin_def)
next
  case (Some c)
  assume "lo \<le> d" "d \<le> hi" and n: "numberOr d f = Inr n"
  then have le: "lo \<le> hi" by simp
  from Some n have c: "c = Inr n" by (simp add: numberOr_def)
  with Some le show ?thesis
    by (cases "n = NaN") (simp_all add: clamp_within clamp_not_within)
qed

lemma clampedNumbers_normalize:
  assumes "normalizeSettings v = Inr s"
  shows "clampedNumbers s
     = (p_wordsPerMinute v \<noteq> Some (Inr NaN) \<and> p_fontSize v \<noteq> Some (Inr NaN)
        \<and> p_lineHeight v \<noteq> Some (Inr NaN))"
proof -
  from assms obtain w f l where
    w: "numberOr WORDS_PER_MINUTE (p_wordsPerMinute v) = Inr w"
    and f: "numberOr FONT_SIZE (p_fontSize v) = Inr f"
    and l: "numberOr LINE_HEIGHT (p_lineHeight v) = Inr l"
    and s: "wordsPerMinute s = clamp w 20 240" "fontSize s = clamp f 20 64"
      "lineHeight s = clamp l 28 96"
    by (auto simp: normalizeSettings_def split: sum.splits)
  have "numberWithin 20 240 (clamp w 20 240) = (p_wordsPerMinute v \<noteq> Some (Inr NaN))"
    by (rule field_within [OF _ _ w]) (simp_all add: WORDS_PER_MINUTE_def)
  moreover have "numberWithin 20 64 (clamp f 20 64) = (p_fontSize v \<noteq> Some (Inr NaN))"
    by (rule field_within [OF _ _ f]) (simp_all add: FONT_SIZE_def)
  moreover have "numberWithin 28 96 (clamp l 28 96) = (p_lineHeight v \<noteq> Some (Inr NaN))"
    by (rule field_within [OF _ _ l]) (simp_all add: LINE_HEIGHT_def)
  ultimately show ?thesis by (simp add: clampedNumbers_def s)
qed

text \<open>When \<^verbatim>\<open>Number\<close> throws, \<open>load\<close> passes nothing on.\<close>

lemma normalize_throws:
  "(\<exists>e. normalizeSettings v = Inl e)
     = ((\<exists>e. p_wordsPerMinute v = Some (Inl e)) \<or> (\<exists>e. p_fontSize v = Some (Inl e))
        \<or> (\<exists>e. p_lineHeight v = Some (Inl e)))"
  by (auto simp: normalizeSettings_def numberOr_def split: sum.splits option.splits)

subsection \<open>Progress along a run\<close>

lemma totalSeconds_pos: "clampedSettings (settings s) \<Longrightarrow> 0 < totalSeconds s"
  using totalWords_pos [of "content s"]
  by (simp add: clampedSettings_def totalSeconds_def wordsPerSecond_def)

lemma step_Frame_progress:
  "raf s \<Longrightarrow> progress (step (Frame t) s) = min 1 (nextProgress t s)"
  by (simp add: step_def playbackEffect_def tick_def Let_def)

lemma frame_no_decrease:
  assumes a: "anchored now s" and o: "raf s" and t: "now \<le> t"
  shows "progress s \<le> progress (step (Frame t) s)"
proof -
  from a o have p: "isPlaying s" by (simp add: anchored_def uiInvariant_def)
  from a have T: "0 < totalSeconds s" by (simp add: anchored_def totalSeconds_pos)
  from a have le: "progress s \<le> 1" by (simp add: anchored_def positioned_def)
  have "progress s \<le> nextProgress t s"
  proof (cases "startTimeRef s")
    case None
    with a p have "startProgressRef s = progress s"
      by (simp add: anchored_def positioned_def)
    with None show ?thesis by (simp add: nextProgress_def anchor_def)
  next
    case (Some t0)
    with a p have e: "nextProgress now s = progress s"
      by (simp add: anchored_def positioned_def)
    from nextProgress_mono [OF Some T t] e show ?thesis by simp
  qed
  with le show ?thesis by (simp add: step_Frame_progress [OF o])
qed

lemma step_no_decrease:
  assumes a: "anchored now s" and o: "offered e s" and t: "inTime now e"
    and r: "\<not> isReset e"
  shows "progress s \<le> progress (step e s)"
proof (cases e)
  case (Frame t)
  with a o t show ?thesis by (simp add: frame_no_decrease)
next
  case Start
  with a o show ?thesis
    by (auto simp: anchored_def positioned_def step_def playbackEffect_def handleStart_def
        enterPrompter_def)
next
  case (Key code)
  with a show ?thesis
    by (auto simp: anchored_def positioned_def step_def playbackEffect_def onKey_def
        handleStart_def handlePause_def enterPrompter_def)
qed (use r in \<open>simp_all add: step_def playbackEffect_def handler_defs Let_def split: sum.splits\<close>)

lemma totalSeconds_autoStart:
  "totalSeconds (s\<lparr>settings := (settings s)\<lparr>autoStart := b\<rparr>\<rparr>) = totalSeconds s"
  by (simp add: totalSeconds_def wordsPerSecond_def)

lemma positioned_frame:
  assumes u: "uiInvariant s" and p: "positioned now s" and o: "raf s" and t: "now \<le> t"
    and T: "0 < totalSeconds s"
  shows "positioned t (step (Frame t) s)"
proof (cases "1 \<le> nextProgress t s")
  case True
  with u o show ?thesis
    by (simp add: positioned_def uiInvariant_def step_def playbackEffect_def tick_def Let_def)
next
  case False
  from u o have pl: "isPlaying s" "mode s = ModePrompter" by (simp_all add: uiInvariant_def)
  have an: "startTimeRef s = None \<or> (\<exists>t0. startTimeRef s = Some t0 \<and> t0 \<le> t)"
    using p pl t by (cases "startTimeRef s") (auto simp: positioned_def)
  from False pl an show ?thesis
    unfolding step_Frame_go [OF o False]
    by (auto simp: positioned_def nextProgress_def anchor_def)
qed

lemma positioned_step:
  assumes u: "uiInvariant s" and p: "positioned now s" and o: "offered e s"
    and t: "inTime now e" and l: "\<not> (isLoad e \<and> isPlaying s)"
    and T: "0 < totalSeconds s"
  shows "positioned (clock now e) (step e s)"
proof (cases e)
  case (Frame t)
  with u p o t T show ?thesis by (simp add: positioned_frame)
next
  case (AutoStartSettled b r)
  with p show ?thesis
    by (cases r)
      (auto simp: positioned_def step_def playbackEffect_def toggleSettle_def
        totalSeconds_autoStart nextProgress_def anchor_def split: option.splits)
next
  case ToggleAutoStart
  with p show ?thesis
    by (auto simp: positioned_def step_def playbackEffect_def toggleFlip_def Let_def
        totalSeconds_autoStart nextProgress_def anchor_def split: option.splits)
next
  case (LoadDone raw en)
  with l have "\<not> isPlaying s" by simp
  with p LoadDone show ?thesis
    by (auto simp: positioned_def step_def playbackEffect_def)
next
  case (Update p')
  with o u have "\<not> isPlaying s" by (auto simp: uiInvariant_def)
  with p Update show ?thesis
    by (auto simp: positioned_def step_def playbackEffect_def updateSettings_def)
next
  case RestoreDefaults
  with o u have "\<not> isPlaying s" by (auto simp: uiInvariant_def)
  with p RestoreDefaults show ?thesis
    by (auto simp: positioned_def step_def playbackEffect_def restoreDefaults_def)
next
  case Start
  with p o u show ?thesis
    by (auto simp: positioned_def uiInvariant_def step_def playbackEffect_def handleStart_def
        enterPrompter_def)
next
  case Pause
  with p o show ?thesis
    by (auto simp: positioned_def step_def playbackEffect_def handlePause_def)
next
  case Stop
  with p o show ?thesis
    by (auto simp: positioned_def step_def playbackEffect_def handleStop_def exitPrompter_def)
next
  case OpenSettings
  with p o show ?thesis
    by (auto simp: positioned_def step_def playbackEffect_def openSettings_def)
next
  case CloseSettings
  with p o u show ?thesis
    by (cases "settingsReturnModeRef s")
      (auto simp: positioned_def uiInvariant_def step_def playbackEffect_def closeSettings_def)
next
  case (Key code)
  with p u show ?thesis
    by (cases "mode s")
      (auto simp: positioned_def uiInvariant_def step_def playbackEffect_def onKey_def
        handleStart_def handlePause_def enterPrompter_def)
next
  case (Edit v)
  with p o show ?thesis
    by (auto simp: positioned_def step_def playbackEffect_def editContent_def)
qed

lemma anchored_step:
  assumes a: "anchored now s" and o: "offered e s" and t: "inTime now e"
    and l: "\<not> (isLoad e \<and> isPlaying s)"
  shows "anchored (clock now e) (step e s)"
proof -
  from a have u: "uiInvariant s" and c: "clampedSettings (settings s)"
    and p: "positioned now s"
    by (simp_all add: anchored_def)
  from uiInvariant_step [OF u o] clamped_step [OF c offered_clamped [OF o]]
    positioned_step [OF u p o t l totalSeconds_pos [OF c]]
  show ?thesis by (simp add: anchored_def)
qed

lemma anchored_init: "anchored now initApp"
proof -
  have "positioned now initApp" "clampedSettings (settings initApp)"
    by (simp_all add: positioned_def initApp_def clamped_default)
  with uiInvariant_init show ?thesis by (simp add: anchored_def)
qed

lemma progress_decreases_only_by_reset:
  "anchored now s \<Longrightarrow> admissible now (es @ [e]) s \<Longrightarrow> \<not> isReset e \<Longrightarrow>
     progress (steps es s) \<le> progress (steps (es @ [e]) s)"
proof (induction es arbitrary: now s)
  case Nil
  then show ?case by (simp add: step_no_decrease)
next
  case (Cons a es)
  from Cons.prems(2) have o: "offered a s" and t: "inTime now a"
    and l: "\<not> (isLoad a \<and> isPlaying s)"
    and r: "admissible (clock now a) (es @ [e]) (step a s)"
    by simp_all
  from Cons.IH [OF anchored_step [OF Cons.prems(1) o t l] r Cons.prems(3)]
  show ?case by simp
qed

section \<open>The claims\<close>

text \<open>
  C1 (natural completion). In every state that a run of offered events reaches from the
  initial state and in which \<open>isPlaying\<close> holds, a frame callback whose candidate progress
  \<open>startProgress + elapsed / totalSeconds\<close> is at least 1 sets \<open>progress\<close> and the anchor
  \<open>startProgressRef\<close> to 1 and \<open>isPlaying\<close> to false, leaves no frame callback pending, and
  the mode, which was the prompter, stays the prompter: progress is not reset to 0.
\<close>

theorem natural_completion:
  "run es initApp = Some s \<Longrightarrow> isPlaying s \<Longrightarrow> 1 \<le> nextProgress time s \<Longrightarrow>
     progress (step (Frame time) s) = 1
     \<and> startProgressRef (step (Frame time) s) = 1
     \<and> \<not> isPlaying (step (Frame time) s)
     \<and> \<not> raf (step (Frame time) s)
     \<and> mode s = ModePrompter
     \<and> mode (step (Frame time) s) = ModePrompter"
proof -
  assume r: "run es initApp = Some s" and p: "isPlaying s" and c: "1 \<le> nextProgress time s"
  from uiInvariant_run [OF uiInvariant_init r] p have "raf s" "mode s = ModePrompter"
    by (simp_all add: uiInvariant_def)
  with p c show ?thesis
    by (simp add: step_def tick_def playbackEffect_def Let_def)
qed

theorem natural_completion_witness:
  "run [Start, Frame 0] initApp = Some (step (Frame 0) (step Start initApp))
   \<and> isPlaying (step (Frame 0) (step Start initApp))
   \<and> 1 \<le> nextProgress 7000 (step (Frame 0) (step Start initApp))
   \<and> progress (step (Frame 7000) (step (Frame 0) (step Start initApp))) = 1
   \<and> startProgressRef (step (Frame 7000) (step (Frame 0) (step Start initApp))) = 1
   \<and> \<not> isPlaying (step (Frame 7000) (step (Frame 0) (step Start initApp)))
   \<and> \<not> raf (step (Frame 7000) (step (Frame 0) (step Start initApp)))
   \<and> mode (step (Frame 7000) (step (Frame 0) (step Start initApp))) = ModePrompter"
proof -
  have r: "run [Start, Frame 0] initApp = Some (step (Frame 0) (step Start initApp))"
    by (simp add: eval_defs)
  have p: "isPlaying (step (Frame 0) (step Start initApp))"
    by (simp add: eval_defs)
  have c: "1 \<le> nextProgress 7000 (step (Frame 0) (step Start initApp))"
    by (simp add: eval_defs)
  from natural_completion [OF r p c] r p c show ?thesis
    by simp
qed

text \<open>
  C2 (stop resets). From every state, whatever its mode, its progress and whether it is
  playing, the stop handler followed by the render leaves \<open>isPlaying\<close> false, \<open>progress\<close>
  and the anchor \<open>startProgressRef\<close> at 0, no start time, and the mode at the input screen.
\<close>

theorem stop_resets:
  "\<not> isPlaying (step Stop s) \<and> progress (step Stop s) = 0
   \<and> startProgressRef (step Stop s) = 0 \<and> startTimeRef (step Stop s) = None
   \<and> mode (step Stop s) = ModeInput"
  by (simp add: step_def handleStop_def exitPrompter_def playbackEffect_def)

text \<open>
  C3 (monotonicity). The claim holds as long as the duration stays what it was when the
  playing interval began: one more frame never lowers the progress (\<open>frames_monotone\<close>),
  and in a run from the initial state in which the end of \<^verbatim>\<open>load\<close> does not arrive while
  playing, only a stop or an edit lowers it (\<open>progress_decreases_only_by_reset\<close>). The
  component does not keep it in every playing interval. The playback effect runs again
  whenever \<open>totalSeconds\<close> changes; it then clears the start time and leaves the anchor
  \<open>startProgressRef\<close> where the last start put it, where the start and pause handlers
  commit the current progress. The next frame therefore puts the progress back on that
  anchor. The end of \<^verbatim>\<open>load\<close> changes \<open>totalSeconds\<close> whenever it arrives: below, playback is
  started from the input screen, two frames bring the progress to one tenth, the stored
  settings (120 words per minute) arrive while \<open>isPlaying\<close> is true, and the following
  frame, with a later timestamp, sets the progress to 0, still playing. No script edit
  and no stop has taken place.
\<close>

theorem load_during_playback_rewinds:
  "map_option progress (run [Start, Frame 0, Frame 600] initApp) = Some (1 / 10)
   \<and> map_option isPlaying
       (run [Start, Frame 0, Frame 600,
             LoadDone (Inr (Some (emptyPartial\<lparr>p_wordsPerMinute := Some 120\<rparr>))) (Inr False)]
          initApp) = Some True
   \<and> map_option progress
       (run [Start, Frame 0, Frame 600,
             LoadDone (Inr (Some (emptyPartial\<lparr>p_wordsPerMinute := Some 120\<rparr>))) (Inr False),
             Frame 616]
          initApp) = Some 0
   \<and> map_option isPlaying
       (run [Start, Frame 0, Frame 600,
             LoadDone (Inr (Some (emptyPartial\<lparr>p_wordsPerMinute := Some 120\<rparr>))) (Inr False),
             Frame 616]
          initApp) = Some True"
  by (simp add: eval_defs loadNumbers_def normalizeNumbers_def clampNumber_def emptyPartial_def)

text \<open>
  C4 (pause/resume continuity). Let playback be playing in the prompter at a progress
  \<open>p \<le> 1\<close>, with a positive duration. Pausing commits \<open>p\<close> as the anchor and stops
  playing. Starting again plays with no start time. The first frame after that, at any
  timestamp \<open>t\<close>, sets the start time to \<open>t\<close> and leaves the progress at \<open>p\<close>. After further
  frames with non-decreasing timestamps the progress is \<open>p\<close> plus the time since \<open>t\<close> over
  the duration, capped at 1: it continues from \<open>p\<close>.
\<close>

theorem pause_resume_continuity:
  assumes "mode s = ModePrompter" and "isPlaying s" and "progress s \<le> 1"
    and "0 < totalSeconds s"
  shows "startProgressRef (step Pause s) = progress s
    \<and> \<not> isPlaying (step Pause s)
    \<and> isPlaying (step Start (step Pause s))
    \<and> startTimeRef (step Start (step Pause s)) = None
    \<and> progress (step Start (step Pause s)) = progress s
    \<and> startTimeRef (step (Frame t) (step Start (step Pause s))) = Some t
    \<and> progress (step (Frame t) (step Start (step Pause s))) = progress s
    \<and> (sorted (t # ts) \<and> ts \<noteq> [] \<longrightarrow>
         progress (steps (map Frame ts) (step (Frame t) (step Start (step Pause s))))
         = min 1 (progress s + ((last ts - t) / 1000) / totalSeconds s))"
proof -
  note p = pause_facts [OF assms(2)]
  have m: "mode (step Pause s) \<noteq> ModeInput" using p(4) assms(1) by simp
  have le: "progress (step Pause s) \<le> 1" using p(3) assms(3) by simp
  have T: "0 < totalSeconds (step Pause s)" using p(5) assms(4) by simp
  note g = resume_start [OF m p(2)]
  note f = resume_first_frame [OF m p(2) le, of t]
  have later: "progress (steps (map Frame ts) (step (Frame t) (step Start (step Pause s))))
         = min 1 (progress s + ((last ts - t) / 1000) / totalSeconds s)"
    if "sorted (t # ts)" "ts \<noteq> []"
    using resume_later_frames [OF m p(2) le T that] by (simp add: p(3) p(5))
  from p g f later show ?thesis by simp
qed

theorem pause_resume_continuity_witness:
  "mode playingHalfway = ModePrompter \<and> isPlaying playingHalfway
   \<and> progress playingHalfway \<le> 1 \<and> 0 < totalSeconds playingHalfway
   \<and> progress playingHalfway = 1 / 2
   \<and> startProgressRef playingHalfway = 0
   \<and> startProgressRef (step Pause playingHalfway) = 1 / 2
   \<and> \<not> isPlaying (step Pause playingHalfway)
   \<and> isPlaying (step Start (step Pause playingHalfway))
   \<and> startTimeRef (step (Frame 9000) (step Start (step Pause playingHalfway))) = Some 9000
   \<and> progress (step (Frame 9000) (step Start (step Pause playingHalfway))) = 1 / 2
   \<and> sorted [9000, 9600, 10200 :: real]
   \<and> progress (steps (map Frame [9600, 10200])
        (step (Frame 9000) (step Start (step Pause playingHalfway)))) = 7 / 10"
proof -
  have h: "mode playingHalfway = ModePrompter" "isPlaying playingHalfway"
    "progress playingHalfway \<le> 1" "0 < totalSeconds playingHalfway"
    by (simp_all add: totalSeconds_playingHalfway) (simp_all add: playingHalfway_eq initApp_def)
  have v: "progress playingHalfway = 1 / 2" "startProgressRef playingHalfway = 0"
    by (simp_all add: playingHalfway_eq initApp_def)
  from pause_resume_continuity [OF h, of 9000 "[9600, 10200]"] h v
  show ?thesis
    by (simp add: totalSeconds_playingHalfway)
qed

text \<open>
  C5 (settings round trip). From the input screen or the prompter, opening the settings
  records the mode in \<open>settingsReturnModeRef\<close> and closing them restores that mode; opening
  them while they are open changes nothing; and after any sequence of events from the
  initial state, the handlers called in any order, \<open>settingsReturnModeRef\<close> is not the
  settings mode.
\<close>

theorem settings_round_trip:
  "(mode s \<noteq> ModeSettings \<longrightarrow>
      settingsReturnModeRef (step OpenSettings s) = mode s
      \<and> mode (step OpenSettings s) = ModeSettings
      \<and> mode (step CloseSettings (step OpenSettings s)) = mode s)
   \<and> (mode s = ModeSettings \<longrightarrow> step OpenSettings s = s)
   \<and> settingsReturnModeRef (steps es initApp) \<noteq> ModeSettings"
  by (auto simp: step_def playbackEffect_def handler_defs returnMode_steps initApp_def)

theorem settings_round_trip_witness:
  "mode (step Start initApp) \<noteq> ModeSettings
   \<and> settingsReturnModeRef (step OpenSettings (step Start initApp)) = ModePrompter
   \<and> mode (step OpenSettings (step Start initApp)) = ModeSettings
   \<and> mode (step CloseSettings (step OpenSettings (step Start initApp))) = ModePrompter
   \<and> step OpenSettings (step OpenSettings (step Start initApp))
       = step OpenSettings (step Start initApp)
   \<and> settingsReturnModeRef (steps [OpenSettings, OpenSettings, CloseSettings] initApp)
       \<noteq> ModeSettings"
proof -
  have a: "mode (step Start initApp) = ModePrompter"
    by (simp add: eval_defs)
  have b: "mode (step OpenSettings (step Start initApp)) = ModeSettings"
    by (simp add: eval_defs)
  from a b
    settings_round_trip [of "step Start initApp" "[OpenSettings, OpenSettings, CloseSettings]"]
    settings_round_trip [of "step OpenSettings (step Start initApp)" "[]"]
  show ?thesis
    by simp
qed

text \<open>
  C6 (settings clamp invariant). The sliders, the only callers of \<^verbatim>\<open>updateSettings\<close>, pass
  values inside their bounds, the restore writes the defaults, the toggle and its
  rollback touch the flag only, and \<^verbatim>\<open>load\<close> clamps: along every run of offered events in
  which the stored item has numbers in its numeric fields the settings are inside their
  bounds (\<open>clamped_run\<close>). \<^verbatim>\<open>load\<close> does not keep the invariant for every stored item.
  \<^verbatim>\<open>normalizeSettings\<close> is there to bring every field into its bounds, but \<^verbatim>\<open>Math.max\<close> and
  \<^verbatim>\<open>Math.min\<close> return NaN for NaN, so a field of which \<^verbatim>\<open>Number\<close> makes NaN passes through
  \<^verbatim>\<open>clamp\<close> unchanged (\<open>clampedNumbers_normalize\<close>). Below, the stored item is
  \<^verbatim>\<open>{"wordsPerMinute": "abc"}\<close>, whose field \<^verbatim>\<open>Number\<close> turns into NaN, and the autostart
  service answers false: \<^verbatim>\<open>load\<close> passes NaN words per minute to \<^verbatim>\<open>setSettings\<close>, with the
  defaults in the other fields.
\<close>

theorem load_stores_NaN:
  "load (Inr (Some (emptyPartial\<lparr>p_wordsPerMinute := Some (Inr NaN)\<rparr>))) (Inr False)
     = Inr \<lparr>wordsPerMinute = NaN, fontSize = Num 34, lineHeight = Num 48, autoStart = False\<rparr>
   \<and> \<not> clampedNumbers
         \<lparr>wordsPerMinute = NaN, fontSize = Num 34, lineHeight = Num 48, autoStart = False\<rparr>"
  by (simp add: load_def normalizeSettings_def numberOr_def clamp_def emptyPartial_def
      clampedNumbers_def numberWithin_def FONT_SIZE_def LINE_HEIGHT_def)

text \<open>
  C7 (autostart rollback). \<^verbatim>\<open>toggleAutoStart\<close> first stores the flipped flag. When the
  bridge call is rejected, the function still returns normally, and with the state it
  started from: the flag is back at its value before the toggle. The rollback writes that
  value whatever state \<open>s1\<close> the component is in when the rejection arrives.
\<close>

theorem autostart_rollback:
  "fst (toggleFlip s) = (\<not> autoStart (settings s))
   \<and> autoStart (settings (snd (toggleFlip s))) = (\<not> autoStart (settings s))
   \<and> toggleAutoStart (Inl e) s = Inr s
   \<and> (\<exists>s'. toggleSettle (fst (toggleFlip s)) (Inl e) s1 = Inr s'
          \<and> autoStart (settings s') = autoStart (settings s))"
  by (simp add: toggleFlip_def toggleSettle_def toggleAutoStart_def Let_def)

text \<open>
  C8 (division safety). The word count is at least 1 for every script, and whenever
  \<open>wordsPerMinute\<close> is at least 20 the words per second and the derived \<open>totalSeconds\<close>,
  the divisor of the frame callback, are strictly positive.
\<close>

theorem totalSeconds_positive:
  "20 \<le> wordsPerMinute (settings s) \<Longrightarrow>
     1 \<le> totalWords (content s) \<and> 0 < wordsPerSecond s \<and> 0 < totalSeconds s"
  using totalWords_pos [of "content s"]
  by (simp add: totalSeconds_def wordsPerSecond_def)

theorem totalSeconds_positive_witness:
  "20 \<le> wordsPerMinute (settings initApp) \<and> 1 \<le> totalWords (content initApp)
   \<and> 0 < wordsPerSecond initApp \<and> 0 < totalSeconds initApp"
  using totalSeconds_positive [of initApp]
  by (simp add: initApp_def DEFAULT_SETTINGS_def WORDS_PER_MINUTE_def)





end
